theory Spec2Isabelle
  imports Complex_Main "HOL-Library.Word"
begin

section \<open>Text primitives of the Python runtime\<close>

text \<open>
  Both scripts handle text as Python \<^verbatim>\<open>str\<close> values. A \<^typ>\<open>char\<close> stands for one
  code point below 256, so the development covers text in that range; the classes
  below are CPython's tables restricted to it.
\<close>

definition is_space :: "char \<Rightarrow> bool" where
  \<comment> \<open>\<^verbatim>\<open>\s\<close> of a \<^verbatim>\<open>str\<close> pattern and the set removed by \<^verbatim>\<open>str.strip()\<close>\<close>
  "is_space c =
     (let n = (of_char c :: nat)
      in (9 \<le> n \<and> n \<le> 13) \<or> (28 \<le> n \<and> n \<le> 32) \<or> n = 133 \<or> n = 160)"

definition int_space :: "char \<Rightarrow> bool" where
  \<comment> \<open>the blanks \<^verbatim>\<open>int(str)\<close> skips: the separators 28..31 are not among them\<close>
  "int_space c =
     (let n = (of_char c :: nat)
      in (9 \<le> n \<and> n \<le> 13) \<or> n = 32 \<or> n = 133 \<or> n = 160)"

definition is_digit :: "char \<Rightarrow> bool" where
  "is_digit c = (let n = (of_char c :: nat) in 48 \<le> n \<and> n \<le> 57)"

definition digit_val :: "char \<Rightarrow> nat" where
  "digit_val c = of_char c - 48"

definition digit_char :: "nat \<Rightarrow> char" where
  "digit_char d = char_of (48 + d)"

definition strip :: "string \<Rightarrow> string" where
  \<comment> \<open>\<^verbatim>\<open>s.strip()\<close>\<close>
  "strip s = rev (dropWhile is_space (rev (dropWhile is_space s)))"

fun split_dot :: "string \<Rightarrow> string list" where
  \<comment> \<open>\<^verbatim>\<open>s.split('.')\<close>: always at least one part\<close>
  "split_dot [] = [[]]"
| "split_dot (c # cs) =
     (if c = CHR ''.'' then [] # split_dot cs
      else (case split_dot cs of [] \<Rightarrow> [[c]] | p # ps \<Rightarrow> (c # p) # ps))"

subsection \<open>Integer literals and their decimal rendering\<close>

fun digits_ok :: "string \<Rightarrow> bool" where
  \<comment> \<open>digits with single underscores between them, as \<^verbatim>\<open>int()\<close> accepts in base 10\<close>
  "digits_ok [] = False"
| "digits_ok [c] = is_digit c"
| "digits_ok (c # d # r) =
     (is_digit c \<and> (if d = CHR ''_'' then digits_ok r else digits_ok (d # r)))"

definition digits_value :: "string \<Rightarrow> nat" where
  "digits_value ds = foldl (\<lambda>a c. 10 * a + digit_val c) 0 (filter is_digit ds)"

definition max_str_digits :: nat where
  \<comment> \<open>the interpreter's default limit on the digits of a decimal numeral that \<^verbatim>\<open>int\<close>
      reads or \<^verbatim>\<open>str\<close> writes (\<^verbatim>\<open>sys.int_info.default_max_str_digits\<close>)\<close>
  "max_str_digits = 4300"

definition py_int :: "string \<Rightarrow> int option" where
  \<comment> \<open>\<^verbatim>\<open>int(s)\<close>; \<open>None\<close> stands for \<^verbatim>\<open>ValueError\<close>, which a malformed literal and one of
      more than \<^const>\<open>max_str_digits\<close> digits both raise\<close>
  "py_int s =
     (let t = dropWhile int_space s;
          neg = (case t of [] \<Rightarrow> False | c # _ \<Rightarrow> c = CHR ''-'');
          u = (case t of [] \<Rightarrow> []
               | c # r \<Rightarrow> if c = CHR ''+'' \<or> c = CHR ''-'' then r else t);
          d = takeWhile (\<lambda>c. is_digit c \<or> c = CHR ''_'') u;
          rest = dropWhile (\<lambda>c. is_digit c \<or> c = CHR ''_'') u
      in if digits_ok d \<and> list_all int_space rest
            \<and> length (filter is_digit d) \<le> max_str_digits
         then Some (if neg then - int (digits_value d) else int (digits_value d))
         else None)"

function nat_digits :: "nat \<Rightarrow> string" where
  "nat_digits n =
     (if n < 10 then [digit_char n] else nat_digits (n div 10) @ [digit_char (n mod 10)])"
  by pat_completeness auto
termination
  by (relation "measure id") auto

declare nat_digits.simps [simp del]

definition py_str :: "int \<Rightarrow> string option" where
  \<comment> \<open>\<^verbatim>\<open>str(i)\<close>, which is what an f-string field of an int renders; \<open>None\<close> stands for
      the \<^verbatim>\<open>ValueError\<close> of a number of more than \<^const>\<open>max_str_digits\<close> digits\<close>
  "py_str i =
     (let digits = nat_digits (nat \<bar>i\<bar>)
      in if length digits > max_str_digits then None
         else Some (if i < 0 then CHR ''-'' # digits else digits))"

section \<open>The publisher: version bump\<close>

datatype exn = ValueError | ReError | IndexError | OSError | EOFError | ZeroDivisionError

datatype ('e, 'a) step = Done 'a | Reject 'e | Raise exn

text \<open>
  Lines 58 to 66 of \<^verbatim>\<open>publish.py\<close>: split the extracted version at the dots, reject
  it unless there are three parts, parse the third, add one and render the new version.
  The wrong number of parts takes the script's own error branch; a third part that
  \<^verbatim>\<open>int\<close> refuses raises, and so does a successor too long for \<^verbatim>\<open>str\<close>.
\<close>

definition increment_version :: "string \<Rightarrow> (string, string) step" where
  "increment_version current_version =
     (let parts = split_dot current_version
      in if length parts \<noteq> 3 then Reject current_version
         else (let major = parts ! 0; minor = parts ! 1; patch = parts ! 2
               in case py_int patch of
                    None \<Rightarrow> Raise ValueError
                  | Some p \<Rightarrow>
                      (case py_str (p + 1) of
                         None \<Rightarrow> Raise ValueError
                       | Some rendered \<Rightarrow> Done (major @ ''.'' @ minor @ ''.'' @ rendered))))"

section \<open>The publisher: regular expressions\<close>

abbreviation (input) dquote :: char where "dquote \<equiv> CHR 0x22"
abbreviation (input) squote :: char where "squote \<equiv> CHR 0x27"
abbreviation (input) bslash :: char where "bslash \<equiv> CHR 0x5C"
abbreviation (input) newline :: char where "newline \<equiv> CHR 0x0A"

definition is_quote :: "char \<Rightarrow> bool" where
  \<comment> \<open>the class \<^verbatim>\<open>["\']\<close>\<close>
  "is_quote c = (c = dquote \<or> c = squote)"

definition literal :: "string \<Rightarrow> string \<Rightarrow> string option" where
  \<comment> \<open>a literal run of a pattern: the text behind it, if the text starts with it\<close>
  "literal p s = (if take (length p) s = p then Some (drop (length p) s) else None)"

text \<open>
  The version pattern \<^verbatim>\<open>version\s*=\s*["\']([^"\']+)["\']\<close> anchored at the start
  of a text. Each greedy run is followed by something outside its class, so the
  matcher has one way through: the result is the matched span, group 1 and the text
  behind the span.
\<close>

definition match_version :: "string \<Rightarrow> (string \<times> string \<times> string) option" where
  "match_version s =
     (case literal ''version'' s of
        None \<Rightarrow> None
      | Some s1 \<Rightarrow>
          (case dropWhile is_space s1 of
             [] \<Rightarrow> None
           | e # s2 \<Rightarrow>
               if e \<noteq> CHR ''='' then None
               else (case dropWhile is_space s2 of
                       [] \<Rightarrow> None
                     | q # s3 \<Rightarrow>
                         if \<not> is_quote q then None
                         else (let body = takeWhile (\<lambda>c. \<not> is_quote c) s3
                               in case dropWhile (\<lambda>c. \<not> is_quote c) s3 of
                                    [] \<Rightarrow> None
                                  | q' # rest \<Rightarrow>
                                      if body = [] then None
                                      else Some (take (length s - length rest) s, body, rest)))))"

fun search_version :: "string \<Rightarrow> (string \<times> string \<times> string \<times> string) option" where
  \<comment> \<open>\<^verbatim>\<open>re.search\<close>: the leftmost match, as (text before, span, group 1, text behind)\<close>
  "search_version [] = None"
| "search_version (c # cs) =
     (case match_version (c # cs) of
        Some (m, g, r) \<Rightarrow> Some ([], m, g, r)
      | None \<Rightarrow> map_option (\<lambda>(b, m, g, r). (c # b, m, g, r)) (search_version cs))"

subsection \<open>The replacement template of \<^verbatim>\<open>re.sub\<close>\<close>

text \<open>
  \<^verbatim>\<open>re.sub\<close> reads its replacement as a template: backslash escapes are decoded and
  \<^verbatim>\<open>\g<0>\<close> stands for the matched span. The substitution pattern of line 72 has no
  group, so every other reference is refused. This is \<^verbatim>\<open>parse_template\<close> of CPython 3.12.
\<close>

datatype piece = Lit char | Whole

definition is_octal :: "char \<Rightarrow> bool" where
  "is_octal c = (let n = (of_char c :: nat) in 48 \<le> n \<and> n \<le> 55)"

definition ascii_letter :: "char \<Rightarrow> bool" where
  "ascii_letter c = (let n = (of_char c :: nat) in (65 \<le> n \<and> n \<le> 90) \<or> (97 \<le> n \<and> n \<le> 122))"

definition id_start :: "char \<Rightarrow> bool" where
  "id_start c =
     (let n = (of_char c :: nat)
      in ascii_letter c \<or> n = 95 \<or> n = 170 \<or> n = 181 \<or> n = 186 \<or>
         (192 \<le> n \<and> n \<le> 214) \<or> (216 \<le> n \<and> n \<le> 246) \<or> 248 \<le> n)"

definition id_continue :: "char \<Rightarrow> bool" where
  "id_continue c = (id_start c \<or> is_digit c \<or> of_char c = (183 :: nat))"

definition is_identifier :: "string \<Rightarrow> bool" where
  \<comment> \<open>\<^verbatim>\<open>str.isidentifier()\<close>\<close>
  "is_identifier s = (case s of [] \<Rightarrow> False | c # r \<Rightarrow> id_start c \<and> list_all id_continue r)"

definition escape_char :: "char \<Rightarrow> char option" where
  \<comment> \<open>the table \<^verbatim>\<open>ESCAPES\<close>\<close>
  "escape_char c =
     (if c = CHR ''a'' then Some (CHR 0x07)
      else if c = CHR ''b'' then Some (CHR 0x08)
      else if c = CHR ''f'' then Some (CHR 0x0C)
      else if c = CHR ''n'' then Some (CHR 0x0A)
      else if c = CHR ''r'' then Some (CHR 0x0D)
      else if c = CHR ''t'' then Some (CHR 0x09)
      else if c = CHR ''v'' then Some (CHR 0x0B)
      else if c = bslash then Some bslash
      else None)"

definition group_ref :: "string \<Rightarrow> string \<Rightarrow> exn + piece" where
  \<comment> \<open>\<^verbatim>\<open>\g<name>\<close> with the text behind it; a lone backslash there is read ahead first\<close>
  "group_ref name behind =
     (if name = [] \<or> bslash \<in> set name then Inl ReError
      else if list_all is_digit name then
        (if digits_value name = 0 then Inr Whole else Inl ReError)
      else if \<not> is_identifier name then Inl ReError
      else if behind = [bslash] then Inl ReError
      else Inl IndexError)"

function (sequential) parse_template :: "string \<Rightarrow> exn + piece list" where
  "parse_template [] = Inr []"
| "parse_template [c] = (if c = bslash then Inl ReError else Inr [Lit c])"
| "parse_template (c # e # r) =
     (if c \<noteq> bslash then map_sum id (Cons (Lit c)) (parse_template (e # r))
      else if e = CHR ''g'' then
        (case r of
           [] \<Rightarrow> Inl ReError
         | lt # r1 \<Rightarrow>
             if lt \<noteq> CHR ''<'' then Inl ReError
             else (case dropWhile (\<lambda>x. x \<noteq> CHR ''>'') r1 of
                     [] \<Rightarrow> Inl ReError
                   | gt # r2 \<Rightarrow>
                       (case group_ref (takeWhile (\<lambda>x. x \<noteq> CHR ''>'') r1) r2 of
                          Inl x \<Rightarrow> Inl x
                        | Inr p \<Rightarrow> map_sum id (Cons p) (parse_template r2))))
      else if e = CHR ''0'' then
        (case r of
           [] \<Rightarrow> Inr [Lit (CHR 0x00)]
         | d1 # r1 \<Rightarrow>
             if \<not> is_octal d1 then map_sum id (Cons (Lit (CHR 0x00))) (parse_template r)
             else (case r1 of
                     [] \<Rightarrow> Inr [Lit (char_of (digit_val d1))]
                   | d2 # r2 \<Rightarrow>
                       if \<not> is_octal d2
                       then map_sum id (Cons (Lit (char_of (digit_val d1)))) (parse_template r1)
                       else map_sum id (Cons (Lit (char_of (8 * digit_val d1 + digit_val d2))))
                              (parse_template r2)))
      else if is_digit e then
        (case r of
           [] \<Rightarrow> Inl ReError
         | d1 # r1 \<Rightarrow>
             if \<not> is_digit d1 then Inl ReError
             else (case r1 of
                     [] \<Rightarrow> Inl ReError
                   | d2 # r2 \<Rightarrow>
                       if is_octal e \<and> is_octal d1 \<and> is_octal d2
                       then (let v = 64 * digit_val e + 8 * digit_val d1 + digit_val d2
                             in if v > 255 then Inl ReError
                                else map_sum id (Cons (Lit (char_of v))) (parse_template r2))
                       else Inl ReError))
      else (case escape_char e of
              Some x \<Rightarrow> map_sum id (Cons (Lit x)) (parse_template r)
            | None \<Rightarrow>
                if ascii_letter e then Inl ReError
                else map_sum id (\<lambda>ps. Lit c # Lit e # ps) (parse_template r)))"
  by pat_completeness auto
termination
proof (relation "measure length", goal_cases)
  case (3 c e r lt r1 gt r2 p)
  have "length (dropWhile (\<lambda>x. x \<noteq> CHR ''>'') r1) \<le> length r1"
    by (rule length_dropWhile_le)
  with 3 show ?case by simp
qed simp_all

definition expand :: "piece list \<Rightarrow> string \<Rightarrow> string" where
  \<comment> \<open>the replacement for one matched span\<close>
  "expand t m = concat (map (\<lambda>p. case p of Lit c \<Rightarrow> [c] | Whole \<Rightarrow> m) t)"

function subst_all :: "piece list \<Rightarrow> string \<Rightarrow> string" where
  \<comment> \<open>the loop of \<^verbatim>\<open>re.sub\<close> with no count: every match, left to right, none overlapping\<close>
  "subst_all t [] = []"
| "subst_all t (c # cs) =
     (case match_version (c # cs) of
        Some (m, g, r) \<Rightarrow> expand t m @ subst_all t r
      | None \<Rightarrow> c # subst_all t cs)"
  by pat_completeness auto
termination
proof -
  have shorter: "length r < length s" if "match_version s = Some (m, g, r)" for s m g r
  proof -
    from that obtain s1 e s2 q s3 q' where
      "s1 = drop (length ''version'') s" "dropWhile is_space s1 = e # s2"
      "dropWhile is_space s2 = q # s3" "dropWhile (\<lambda>c. \<not> is_quote c) s3 = q' # r"
      unfolding match_version_def literal_def
      by (auto simp: Let_def split: if_splits list.splits)
    moreover have "length (dropWhile is_space s1) \<le> length s1"
      "length (dropWhile is_space s2) \<le> length s2"
      "length (dropWhile (\<lambda>c. \<not> is_quote c) s3) \<le> length s3"
      by (rule length_dropWhile_le)+
    ultimately show ?thesis by simp
  qed
  show ?thesis
    by (relation "measure (\<lambda>(t, s). length s)") (auto dest: shorter)
qed

definition re_sub_version :: "string \<Rightarrow> string \<Rightarrow> exn + string" where
  \<comment> \<open>\<^verbatim>\<open>re.sub(r'version\s*=\s*["\'][^"\']+["\']', repl, content)\<close>\<close>
  "re_sub_version repl content =
     (case parse_template repl of Inl x \<Rightarrow> Inl x | Inr t \<Rightarrow> Inr (subst_all t content))"

subsection \<open>The credential pattern\<close>

text \<open>
  \<^verbatim>\<open>apiToken\s*=\s*(.+)\<close>. The dot matches everything but a line feed, which is a
  blank: the second run of blanks is greedy and gives characters back until the group
  can start, so the longer run is tried first.
\<close>

fun blanks_then_value :: "string \<Rightarrow> string option" where
  "blanks_then_value [] = None"
| "blanks_then_value (c # cs) =
     (case (if is_space c then blanks_then_value cs else None) of
        Some g \<Rightarrow> Some g
      | None \<Rightarrow> if c = newline then None else Some (takeWhile (\<lambda>x. x \<noteq> newline) (c # cs)))"

definition match_token :: "string \<Rightarrow> string option" where
  "match_token s =
     (case literal ''apiToken'' s of
        None \<Rightarrow> None
      | Some s1 \<Rightarrow>
          (case dropWhile is_space s1 of
             [] \<Rightarrow> None
           | e # s2 \<Rightarrow> if e \<noteq> CHR ''='' then None else blanks_then_value s2))"

fun search_token :: "string \<Rightarrow> string option" where
  \<comment> \<open>group 1 of the leftmost match\<close>
  "search_token [] = None"
| "search_token (c # cs) =
     (case match_token (c # cs) of Some g \<Rightarrow> Some g | None \<Rightarrow> search_token cs)"

section \<open>The publisher: the workflow\<close>

text \<open>
  What \<^verbatim>\<open>main\<close> of \<^verbatim>\<open>publish.py\<close> sees of its surroundings: the manifest and the secrets
  file as the text \<^verbatim>\<open>read()\<close> returns (absent when the path does not exist), the
  platform, whether standard input still delivers a line, which build folders exist,
  and how each child process ends. The run returns the manifest it leaves behind and
  the ordered trace of what it printed, asked, wrote and started.
\<close>

datatype command =
    Rmdir string       \<comment> \<open>\<^verbatim>\<open>rmdir /s /q folder\<close> through the shell\<close>
  | Rm_rf string       \<comment> \<open>\<^verbatim>\<open>rm -rf folder\<close>\<close>
  | Build              \<comment> \<open>\<^verbatim>\<open>sys.executable -m build\<close>\<close>
  | Upload string      \<comment> \<open>\<^verbatim>\<open>twine upload dist/* --username __token__ --password token\<close>\<close>
  | Pip_upgrade        \<comment> \<open>\<^verbatim>\<open>sys.executable -m pip install --upgrade airobo\<close>\<close>

datatype proc_result =
    Exit int string    \<comment> \<open>return code and captured standard error\<close>
  | Spawn_error        \<comment> \<open>\<^verbatim>\<open>subprocess.run\<close> raised: the program could not be started\<close>

datatype message =
    Rule | Rule_below_blank | Title | Blank
  | Err_manifest_missing | Err_version_missing | Err_invalid_version string
  | Msg_incrementing string string | Msg_version_updated | Msg_cleaning
  | Msg_building | Err_build_failed string | Msg_built
  | Err_env_missing | Err_token_missing
  | Msg_uploading | Err_upload_failed string
  | Msg_published string | Msg_view_at string | Msg_updating_local
  | Msg_success string | Msg_users_can_install | Msg_pip_hint
  | Err_unexpected exn | Err_details exn
  | Msg_finished | Msg_forcing_open

datatype prompt = Press_enter_to_exit | Press_enter_to_close

datatype event =
    Print message | Input prompt | Write_manifest string | Run command | Sleep nat

datatype outcome = Completed | Returned | Raised exn

record world =
  manifest :: "string option"
  secrets :: "string option"
  windows :: bool
  stdin_open :: bool
  dir_exists :: "string \<Rightarrow> bool"
  proc :: "command \<Rightarrow> proc_result"

definition and_then :: "event list \<Rightarrow> event list \<times> outcome \<Rightarrow> event list \<times> outcome" where
  "and_then es r = (es @ fst r, snd r)"

definition halt :: "world \<Rightarrow> message \<Rightarrow> event list \<times> outcome" where
  \<comment> \<open>an error branch: print the diagnostic, wait for Enter, \<^verbatim>\<open>return\<close>\<close>
  "halt w m =
     ([Print m, Input Press_enter_to_exit],
      if stdin_open w then Returned else Raised EOFError)"

definition upload :: "world \<Rightarrow> string \<Rightarrow> string \<Rightarrow> event list \<times> outcome" where
  \<comment> \<open>lines 119 to 146\<close>
  "upload w new_version pypi_token =
     and_then [Print Msg_uploading, Run (Upload pypi_token)]
       (case proc w (Upload pypi_token) of
          Spawn_error \<Rightarrow> ([], Raised OSError)
        | Exit returncode stderr \<Rightarrow>
            if returncode \<noteq> 0 then halt w (Err_upload_failed stderr)
            else and_then
                   [Print (Msg_published new_version), Print (Msg_view_at new_version),
                    Print Msg_updating_local, Run Pip_upgrade]
                   (case proc w Pip_upgrade of
                      Spawn_error \<Rightarrow> ([], Raised OSError)
                    | Exit _ _ \<Rightarrow>
                        ([Print Blank, Print Rule, Print (Msg_success new_version), Print Rule,
                          Print Blank, Print Msg_users_can_install, Print Msg_pip_hint,
                          Print Blank], Completed)))"

definition read_token :: "world \<Rightarrow> string \<Rightarrow> event list \<times> outcome" where
  \<comment> \<open>lines 101 to 117\<close>
  "read_token w new_version =
     (case secrets w of
        None \<Rightarrow> halt w Err_env_missing
      | Some env_content \<Rightarrow>
          (case search_token env_content of
             None \<Rightarrow> halt w Err_token_missing
           | Some g \<Rightarrow> upload w new_version (strip g)))"

definition build :: "world \<Rightarrow> string \<Rightarrow> event list \<times> outcome" where
  \<comment> \<open>lines 91 to 99\<close>
  "build w new_version =
     and_then [Print Msg_building, Run Build]
       (case proc w Build of
          Spawn_error \<Rightarrow> ([], Raised OSError)
        | Exit returncode stderr \<Rightarrow>
            if returncode \<noteq> 0 then halt w (Err_build_failed stderr)
            else and_then [Print Msg_built] (read_token w new_version))"

fun clean :: "world \<Rightarrow> string list \<Rightarrow> event list \<times> exn option" where
  \<comment> \<open>the loop of lines 84 to 89; the return codes are not looked at\<close>
  "clean w [] = ([], None)"
| "clean w (folder # folders) =
     (if dir_exists w folder then
        (let c = (if windows w then Rmdir folder else Rm_rf folder)
         in case proc w c of
              Spawn_error \<Rightarrow> ([Run c], Some OSError)
            | Exit _ _ \<Rightarrow> (Run c # fst (clean w folders), snd (clean w folders)))
      else clean w folders)"

definition build_folders :: "string list" where
  "build_folders = [''dist'', ''build'', ''airobo.egg-info'']"

definition after_write :: "world \<Rightarrow> string \<Rightarrow> event list \<times> outcome" where
  \<comment> \<open>lines 80 to 89, then the build\<close>
  "after_write w new_version =
     and_then [Print Msg_version_updated, Print Msg_cleaning]
       (case clean w build_folders of
          (es, Some x) \<Rightarrow> (es, Raised x)
        | (es, None) \<Rightarrow> and_then es (build w new_version))"

definition replacement :: "string \<Rightarrow> string" where
  \<comment> \<open>the f-string of line 73\<close>
  "replacement new_version = ''version = '' @ [dquote] @ new_version @ [dquote]"

definition attempt :: "world \<Rightarrow> string option \<times> event list \<times> outcome" where
  \<comment> \<open>the \<^verbatim>\<open>try\<close> block, lines 35 to 146\<close>
  "attempt w =
     (case manifest w of
        None \<Rightarrow> (None, halt w Err_manifest_missing)
      | Some content \<Rightarrow>
          (case search_version content of
             None \<Rightarrow> (Some content, halt w Err_version_missing)
           | Some (before, matched, current_version, behind) \<Rightarrow>
               (case increment_version current_version of
                  Reject v \<Rightarrow> (Some content, halt w (Err_invalid_version v))
                | Raise x \<Rightarrow> (Some content, [], Raised x)
                | Done new_version \<Rightarrow>
                    (case re_sub_version (replacement new_version) content of
                       Inl x \<Rightarrow>
                         (Some content,
                          [Print (Msg_incrementing current_version new_version)], Raised x)
                     | Inr new_content \<Rightarrow>
                         (Some new_content,
                          and_then [Print (Msg_incrementing current_version new_version),
                                    Write_manifest new_content]
                            (after_write w new_version))))))"

definition epilogue :: "world \<Rightarrow> event list" where
  \<comment> \<open>lines 152 to 161\<close>
  "epilogue w =
     [Print Rule_below_blank, Print Msg_finished, Print Rule, Input Press_enter_to_close]
     @ (if stdin_open w then [] else [Print Msg_forcing_open, Sleep 10])"

definition main :: "world \<Rightarrow> string option \<times> event list" where
  "main w =
     (case attempt w of
        (m, es, out) \<Rightarrow>
          (m, [Print Rule, Print Title, Print Rule, Print Blank] @ es @
              (case out of
                 Returned \<Rightarrow> []
               | Completed \<Rightarrow> epilogue w
               | Raised x \<Rightarrow> [Print (Err_unexpected x), Print (Err_details x)] @ epilogue w)))"

subsection \<open>Reading a trace\<close>

fun writes :: "event list \<Rightarrow> string list" where
  "writes [] = []"
| "writes (Write_manifest c # es) = c # writes es"
| "writes (_ # es) = writes es"

fun runs :: "event list \<Rightarrow> command list" where
  "runs [] = []"
| "runs (Run c # es) = c # runs es"
| "runs (_ # es) = runs es"

subsection \<open>Sample surroundings\<close>

text \<open>
  Concrete runs are taken on a POSIX machine with a terminal attached and no build folder
  left over, where the build and the upload end with the given codes and every other
  child process succeeds.
\<close>

definition procs :: "int \<Rightarrow> int \<Rightarrow> command \<Rightarrow> proc_result" where
  "procs build_code upload_code c =
     (case c of Build \<Rightarrow> Exit build_code [] | Upload _ \<Rightarrow> Exit upload_code [] | _ \<Rightarrow> Exit 0 [])"

definition no_folder :: "string \<Rightarrow> bool" where
  "no_folder folder = False"

definition sample_world :: "string \<Rightarrow> string \<Rightarrow> int \<Rightarrow> int \<Rightarrow> world" where
  "sample_world manifest_text secrets_text build_code upload_code =
     \<lparr>manifest = Some manifest_text, secrets = Some secrets_text, windows = False,
      stdin_open = True, dir_exists = no_folder, proc = procs build_code upload_code\<rparr>"

subsection \<open>Notions of the specification\<close>

text \<open>
  The specification speaks of a \<^emph>\<open>line\<close> of the secrets file matching the credential
  pattern and of the \<^emph>\<open>three-component numeric shape\<close> of a version. These two
  definitions follow its words; the script has neither notion.
\<close>

fun split_lines :: "string \<Rightarrow> string list" where
  "split_lines [] = [[]]"
| "split_lines (c # cs) =
     (if c = newline then [] # split_lines cs
      else (case split_lines cs of [] \<Rightarrow> [[c]] | p # ps \<Rightarrow> (c # p) # ps))"

definition has_token_line :: "string \<Rightarrow> bool" where
  "has_token_line env_content = list_ex (\<lambda>l. search_token l \<noteq> None) (split_lines env_content)"

definition all_digits :: "string \<Rightarrow> bool" where
  "all_digits s = (s \<noteq> [] \<and> list_all is_digit s)"

definition numeric_shape :: "string \<Rightarrow> bool" where
  "numeric_shape v = (length (split_dot v) = 3 \<and> list_all all_digits (split_dot v))"

section \<open>Properties of the version bump\<close>

lemma split_dot_plain: "CHR ''.'' \<notin> set s \<Longrightarrow> split_dot s = [s]"
  by (induction s) auto

lemma split_dot_first:
  "CHR ''.'' \<notin> set x \<Longrightarrow> split_dot (x @ CHR ''.'' # r) = x # split_dot r"
  by (induction x) auto

lemma split_dot_three:
  assumes "CHR ''.'' \<notin> set x" "CHR ''.'' \<notin> set y" "CHR ''.'' \<notin> set z"
  shows "split_dot (x @ ''.'' @ y @ ''.'' @ z) = [x, y, z]"
  using assms by (simp add: split_dot_first split_dot_plain)

subsection \<open>Decimal numerals\<close>

lemma digit_val_char: "d < 10 \<Longrightarrow> digit_val (digit_char d) = d"
  by (simp add: digit_val_def digit_char_def)

lemma is_digit_char: "d < 10 \<Longrightarrow> is_digit (digit_char d)"
  by (simp add: is_digit_def digit_char_def)

lemma nat_digits_all: "list_all is_digit (nat_digits n)"
proof (induction n rule: nat_digits.induct)
  case (1 n)
  then show ?case by (subst nat_digits.simps) (auto simp: is_digit_char)
qed

lemma nat_digits_nonempty: "nat_digits n \<noteq> []"
  by (subst nat_digits.simps) simp

lemma digits_value_snoc:
  "is_digit c \<Longrightarrow> digits_value (ds @ [c]) = 10 * digits_value ds + digit_val c"
  by (simp add: digits_value_def)

lemma digits_value_nat_digits: "digits_value (nat_digits n) = n"
proof (induction n rule: nat_digits.induct)
  case (1 n)
  show ?case
  proof (cases "n < 10")
    case True
    then show ?thesis
      by (subst nat_digits.simps) (simp add: digits_value_def is_digit_char digit_val_char)
  next
    case False
    with 1 have "digits_value (nat_digits (n div 10)) = n div 10" by simp
    with False show ?thesis
      by (subst nat_digits.simps) (simp add: digits_value_snoc is_digit_char digit_val_char)
  qed
qed

lemma length_nat_digits: "0 < k \<Longrightarrow> length (nat_digits n) \<le> k \<longleftrightarrow> n < 10 ^ k"
proof (induction n arbitrary: k rule: nat_digits.induct)
  case (1 n)
  show ?case
  proof (cases "n < 10")
    case True
    have "(10::nat) ^ 1 \<le> 10 ^ k" using 1(2) by (intro power_increasing) simp_all
    with True 1(2) show ?thesis by (subst nat_digits.simps) simp
  next
    case False
    show ?thesis
    proof (cases k)
      case 0
      with 1(2) show ?thesis by simp
    next
      case (Suc j)
      show ?thesis
      proof (cases "j = 0")
        case True
        with False Suc nat_digits_nonempty [of "n div 10"] show ?thesis
          by (subst nat_digits.simps) (simp add: Suc_le_eq)
      next
        case nz: False
        with 1(1) [OF False, of j] have "length (nat_digits (n div 10)) \<le> j \<longleftrightarrow> n div 10 < 10 ^ j"
          by simp
        moreover have "n div 10 < 10 ^ j \<longleftrightarrow> n < 10 ^ Suc j"
          by (simp add: div_less_iff_less_mult mult.commute)
        ultimately show ?thesis using False Suc by (subst nat_digits.simps) simp
      qed
    qed
  qed
qed

lemma digits_value_bound: "digits_value ds < 10 ^ length (filter is_digit ds)"
proof (induction ds rule: rev_induct)
  case Nil
  show ?case by (simp add: digits_value_def)
next
  case (snoc c ds)
  show ?case
  proof (cases "is_digit c")
    case True
    then have "digit_val c < 10" by (auto simp: is_digit_def digit_val_def Let_def)
    with snoc True show ?thesis by (simp add: digits_value_snoc)
  next
    case False
    with snoc show ?thesis by (simp add: digits_value_def)
  qed
qed

lemma py_int_bound:
  assumes "py_int s = Some n"
  shows "\<bar>n\<bar> < 10 ^ max_str_digits"
proof -
  from assms obtain d where l: "length (filter is_digit d) \<le> max_str_digits"
    and n: "\<bar>n\<bar> = int (digits_value d)"
    by (auto simp: py_int_def Let_def split: if_splits)
  have "digits_value d < 10 ^ length (filter is_digit d)" by (rule digits_value_bound)
  also have "\<dots> \<le> 10 ^ max_str_digits" using l by (intro power_increasing) simp_all
  finally have "int (digits_value d) < int (10 ^ max_str_digits)" by (simp only: of_nat_less_iff)
  with n show ?thesis by simp
qed

lemma digits_ok_all: "ds \<noteq> [] \<Longrightarrow> list_all is_digit ds \<Longrightarrow> digits_ok ds"
  by (induction ds rule: digits_ok.induct) (auto simp: is_digit_def)

lemma digit_not_space: "is_digit c \<Longrightarrow> \<not> int_space c"
  by (auto simp: is_digit_def int_space_def Let_def)

lemma digit_not_sign: "is_digit c \<Longrightarrow> c \<noteq> CHR ''+'' \<and> c \<noteq> CHR ''-''"
  by (auto simp: is_digit_def)

lemma py_int_digits:
  assumes "ds \<noteq> []" "list_all is_digit ds" "length ds \<le> max_str_digits"
  shows "py_int ds = Some (int (digits_value ds))"
    and "py_int (CHR ''-'' # ds) = Some (- int (digits_value ds))"
proof -
  from assms obtain c r where ds: "ds = c # r" and c: "is_digit c"
    by (cases ds) auto
  have t: "dropWhile int_space ds = ds"
    using ds c digit_not_space by simp
  have tw: "takeWhile (\<lambda>c. is_digit c \<or> c = CHR ''_'') ds = ds"
    using assms(2) by (simp add: list_all_iff)
  have dw: "dropWhile (\<lambda>c. is_digit c \<or> c = CHR ''_'') ds = []"
    using assms(2) by (simp add: list_all_iff)
  have f: "filter is_digit ds = ds"
    using assms(2) by (simp add: list_all_iff)
  show "py_int ds = Some (int (digits_value ds))"
    unfolding py_int_def t
    using digit_not_sign [OF c] digits_ok_all [OF assms(1,2)] tw dw f assms(3)
    by (simp add: ds Let_def)
  have "\<not> int_space (CHR ''-'')" by (simp add: int_space_def)
  with digits_ok_all [OF assms(1,2)] assms(3)
  show "py_int (CHR ''-'' # ds) = Some (- int (digits_value ds))"
    unfolding py_int_def by (simp add: Let_def tw dw f)
qed

lemma py_str_small:
  assumes "\<bar>i\<bar> < 10 ^ max_str_digits"
  shows "py_str i = Some (if i < 0 then CHR ''-'' # nat_digits (nat \<bar>i\<bar>) else nat_digits (nat \<bar>i\<bar>))"
proof -
  have "0 < max_str_digits" by (simp add: max_str_digits_def)
  moreover from assms have "nat \<bar>i\<bar> < 10 ^ max_str_digits"
    by (simp add: nat_less_iff)
  ultimately have "length (nat_digits (nat \<bar>i\<bar>)) \<le> max_str_digits"
    by (simp add: length_nat_digits)
  then show ?thesis by (simp add: py_str_def Let_def)
qed

lemma py_str_large:
  assumes "10 ^ max_str_digits \<le> \<bar>i\<bar>"
  shows "py_str i = None"
proof -
  have "0 < max_str_digits" by (simp add: max_str_digits_def)
  moreover from assms have "\<not> nat \<bar>i\<bar> < 10 ^ max_str_digits"
    by (simp add: nat_less_iff)
  ultimately have "\<not> length (nat_digits (nat \<bar>i\<bar>)) \<le> max_str_digits"
    by (simp add: length_nat_digits)
  then show ?thesis by (simp add: py_str_def Let_def)
qed

lemma py_int_py_str:
  assumes "py_str i = Some s"
  shows "py_int s = Some i"
proof -
  let ?ds = "nat_digits (nat \<bar>i\<bar>)"
  from assms have l: "length ?ds \<le> max_str_digits"
    and s: "s = (if i < 0 then CHR ''-'' # ?ds else ?ds)"
    by (auto simp: py_str_def Let_def split: if_splits)
  note r = py_int_digits [OF nat_digits_nonempty nat_digits_all l]
  show ?thesis
  proof (cases "i < 0")
    case True
    with r(2) s show ?thesis by (simp add: digits_value_nat_digits)
  next
    case False
    with r(1) s show ?thesis by (simp add: digits_value_nat_digits)
  qed
qed

lemma digit_char_nine: "digit_char 9 = CHR ''9''"
  by code_simp

lemma nat_digits_nines: "nat_digits (10 ^ Suc k - 1) = replicate (Suc k) (CHR ''9'')"
proof (induction k)
  case 0
  show ?case by (subst nat_digits.simps) (simp add: digit_char_nine)
next
  case (Suc k)
  have ge: "\<not> (10::nat) ^ Suc (Suc k) - 1 < 10"
  proof -
    have "(1::nat) \<le> 10 ^ k" by simp
    then have "(100::nat) \<le> 10 ^ Suc (Suc k)" by simp
    then show ?thesis by linarith
  qed
  have p: "(1::nat) \<le> 10 ^ Suc k" by simp
  have "(10::nat) ^ Suc (Suc k) - 1 = 10 * (10 ^ Suc k - 1) + 9"
    using p by (simp add: algebra_simps)
  then have d: "((10::nat) ^ Suc (Suc k) - 1) div 10 = 10 ^ Suc k - 1"
    and m: "((10::nat) ^ Suc (Suc k) - 1) mod 10 = 9"
    by simp_all
  have "nat_digits (10 ^ Suc (Suc k) - 1)
        = nat_digits (10 ^ Suc k - 1) @ [digit_char 9]"
    by (subst nat_digits.simps) (simp only: ge d m if_False)
  also have "\<dots> = replicate (Suc k) (CHR ''9'') @ [CHR ''9'']"
    by (simp only: Suc digit_char_nine)
  also have "\<dots> = replicate (Suc (Suc k)) (CHR ''9'')"
    by (simp only: replicate_append_same) simp
  finally show ?case .
qed

lemma py_int_nines:
  "py_int (replicate max_str_digits (CHR ''9'')) = Some (10 ^ max_str_digits - 1)"
proof -
  obtain k where k: "max_str_digits = Suc k" by (simp add: max_str_digits_def)
  have "length (nat_digits (10 ^ Suc k - 1)) \<le> max_str_digits"
    unfolding nat_digits_nines by (simp add: k)
  then have "py_int (nat_digits (10 ^ Suc k - 1)) = Some (int (digits_value (nat_digits (10 ^ Suc k - 1))))"
    by (rule py_int_digits(1) [OF nat_digits_nonempty nat_digits_all])
  then have "py_int (replicate (Suc k) (CHR ''9'')) = Some (int (10 ^ Suc k - 1))"
    by (simp only: digits_value_nat_digits) (simp only: nat_digits_nines)
  moreover have "int (10 ^ Suc k - 1) = 10 ^ Suc k - 1"
    by (simp add: of_nat_diff)
  ultimately show ?thesis by (simp only: k)
qed

subsection \<open>The bump\<close>

text \<open>
  C1, as stated, fails at one integer. A third component of 4300 nines is an integer
  that \<^verbatim>\<open>int\<close> reads, but its successor has 4301 digits, one more than the interpreter
  renders: line 66 raises \<^verbatim>\<open>ValueError\<close> and no new version is produced.
\<close>

theorem longest_patch_counterexample:
  "py_int (replicate max_str_digits (CHR ''9'')) = Some (10 ^ max_str_digits - 1)
   \<and> increment_version (''1.2.'' @ replicate max_str_digits (CHR ''9'')) = Raise ValueError"
proof -
  let ?z = "replicate max_str_digits (CHR ''9'')"
  have "split_dot (''1'' @ ''.'' @ ''2'' @ ''.'' @ ?z) = [''1'', ''2'', ?z]"
    by (rule split_dot_three) simp_all
  then have s: "split_dot (''1.2.'' @ ?z) = [''1'', ''2'', ?z]" by simp
  have "py_str (10 ^ max_str_digits - 1 + 1) = None"
    by (rule py_str_large) simp
  with s py_int_nines show ?thesis
    by (simp add: increment_version_def)
qed

text \<open>
  C1, amended. A version of exactly three dot-separated components \<open>x\<close>, \<open>y\<close>, \<open>z\<close> whose
  third component \<^verbatim>\<open>int\<close> reads as \<open>n\<close>, other than the longest run of nines, is bumped
  to \<open>x.y.s\<close>: the first two components come out as the same text, and \<open>s\<close> is the decimal
  rendering of \<open>n + 1\<close>, which \<^verbatim>\<open>int\<close> reads back as \<open>n + 1\<close>.
\<close>

theorem increment_patch:
  assumes "CHR ''.'' \<notin> set x" "CHR ''.'' \<notin> set y" "CHR ''.'' \<notin> set z"
    and "py_int z = Some n"
    and "n \<noteq> 10 ^ max_str_digits - 1"
  shows "\<exists>s. increment_version (x @ ''.'' @ y @ ''.'' @ z) = Done (x @ ''.'' @ y @ ''.'' @ s)
            \<and> py_str (n + 1) = Some s \<and> py_int s = Some (n + 1)"
proof -
  from py_int_bound [OF assms(4)] assms(5) have "\<bar>n + 1\<bar> < 10 ^ max_str_digits" by simp
  from py_str_small [OF this] obtain s where s: "py_str (n + 1) = Some s" by blast
  with assms(4) split_dot_three [OF assms(1-3)]
  have "increment_version (x @ ''.'' @ y @ ''.'' @ z) = Done (x @ ''.'' @ y @ ''.'' @ s)"
    by (simp add: increment_version_def)
  with s py_int_py_str [OF s] show ?thesis by blast
qed

theorem increment_patch_witness:
  "increment_version ''1.02.9'' = Done ''1.02.10''"
proof -
  have p: "py_int ''9'' = Some 9" by code_simp
  have "(10::int) ^ 2 \<le> 10 ^ max_str_digits"
    by (intro power_increasing) (simp_all add: max_str_digits_def)
  then have n: "(9::int) \<noteq> 10 ^ max_str_digits - 1" by simp
  from increment_patch [of "''1''" "''02''" "''9''" 9, OF _ _ _ p n]
  obtain s where "increment_version (''1'' @ ''.'' @ ''02'' @ ''.'' @ ''9'')
                  = Done (''1'' @ ''.'' @ ''02'' @ ''.'' @ s)"
    and "py_str (9 + 1) = Some s"
    by auto
  moreover have "py_str (9 + 1) = Some ''10''" by code_simp
  ultimately show ?thesis by simp
qed

section \<open>Properties of the workflow\<close>

subsection \<open>What a run writes and starts\<close>

lemma writes_append: "writes (xs @ ys) = writes xs @ writes ys"
  by (induction xs rule: writes.induct) auto

lemma runs_append: "runs (xs @ ys) = runs xs @ runs ys"
  by (induction xs rule: runs.induct) auto

lemma halt_quiet: "writes (fst (halt w m)) = []" "runs (fst (halt w m)) = []"
  by (simp_all add: halt_def)

lemma epilogue_quiet: "writes (epilogue w) = []" "runs (epilogue w) = []"
  by (simp_all add: epilogue_def)

lemma clean_writes: "writes (fst (clean w fs)) = []"
  by (induction fs) (auto simp: Let_def split: proc_result.splits)

lemma clean_runs: "Upload t \<notin> set (runs (fst (clean w fs)))"
  by (induction fs) (auto simp: Let_def split: proc_result.splits)

lemma upload_writes: "writes (fst (upload w nv t)) = []"
  by (simp add: upload_def and_then_def writes_append halt_quiet split: proc_result.splits)

lemma read_token_writes: "writes (fst (read_token w nv)) = []"
  by (simp add: read_token_def halt_quiet upload_writes split: option.splits)

lemma build_writes: "writes (fst (build w nv)) = []"
  by (simp add: build_def and_then_def writes_append halt_quiet read_token_writes
      split: proc_result.splits)

lemma after_write_writes: "writes (fst (after_write w nv)) = []"
proof -
  obtain es r where c: "clean w build_folders = (es, r)"
    by (cases "clean w build_folders")
  with clean_writes [of w build_folders] have "writes es = []"
    by simp
  then show ?thesis
    by (cases r) (simp_all add: after_write_def c and_then_def writes_append build_writes)
qed

lemma build_failed_runs:
  "proc w Build = Exit rc err \<Longrightarrow> rc \<noteq> 0 \<Longrightarrow> runs (fst (build w nv)) = [Build]"
  by (simp add: build_def and_then_def runs_append halt_quiet)

lemma read_token_none_runs:
  "secrets w = Some env \<Longrightarrow> search_token env = None \<Longrightarrow> runs (fst (read_token w nv)) = []"
  by (simp add: read_token_def halt_quiet)


lemma after_write_runs:
  assumes "Upload t \<notin> set (runs (fst (build w nv)))"
  shows "Upload t \<notin> set (runs (fst (after_write w nv)))"
proof -
  obtain es r where c: "clean w build_folders = (es, r)"
    by (cases "clean w build_folders")
  with clean_runs [of t w build_folders] have "Upload t \<notin> set (runs es)"
    by simp
  with assms show ?thesis
    by (cases r) (simp_all add: after_write_def c and_then_def runs_append)
qed

lemma attempt_runs:
  assumes "\<And>nv. Upload t \<notin> set (runs (fst (build w nv)))"
  shows "Upload t \<notin> set (runs (fst (snd (attempt w))))"
  using assms
  by (auto simp: attempt_def halt_quiet and_then_def runs_append after_write_runs
      split: option.splits step.splits sum.splits)

lemma main_runs: "runs (snd (main w)) = runs (fst (snd (attempt w)))"
  by (cases "attempt w")
    (auto simp: main_def runs_append epilogue_quiet split: outcome.splits)

lemma main_writes: "writes (snd (main w)) = writes (fst (snd (attempt w)))"
  by (cases "attempt w")
    (auto simp: main_def writes_append epilogue_quiet split: outcome.splits)

lemma main_manifest: "fst (main w) = fst (attempt w)"
  by (cases "attempt w") (simp add: main_def)

lemma run_in_runs: "Run c \<in> set es \<longleftrightarrow> c \<in> set (runs es)"
  by (induction es rule: runs.induct) auto

lemma write_in_writes: "Write_manifest c \<in> set es \<longleftrightarrow> c \<in> set (writes es)"
  by (induction es rule: writes.induct) auto

subsection \<open>Halting on a malformed version\<close>

lemma attempt_rejected:
  assumes "manifest w = Some content"
    and "search_version content = Some (before, matched, v, behind)"
    and "length (split_dot v) \<noteq> 3"
  shows "attempt w = (Some content, halt w (Err_invalid_version v))"
  using assms by (simp add: attempt_def increment_version_def)

lemma attempt_unparsable:
  assumes "manifest w = Some content"
    and "search_version content = Some (before, matched, v, behind)"
    and "increment_version v = Raise x"
  shows "attempt w = (Some content, [], Raised x)"
  using assms by (simp add: attempt_def)

lemma increment_refused:
  assumes "length (split_dot v) = 3"
    and "py_int (split_dot v ! 2) = None
         \<or> py_int (split_dot v ! 2) = Some (10 ^ max_str_digits - 1)"
  shows "increment_version v = Raise ValueError"
proof -
  have "py_str (10 ^ max_str_digits - 1 + 1) = None"
    by (rule py_str_large) simp
  with assms show ?thesis
    by (auto simp: increment_version_def)
qed

text \<open>
  C3. When the extracted version has fewer or more than three dot-separated components,
  the run prints the invalid-format diagnostic, waits for Enter and returns: the manifest
  is the text that was read, and the run writes no file and starts no child process.
  (With standard input closed the wait raises, which the handler of line 148 reports
  before the closing lines; nothing is written on that path either.)
\<close>

theorem wrong_component_count_halts:
  assumes "manifest w = Some content"
    and "search_version content = Some (before, matched, v, behind)"
    and "length (split_dot v) \<noteq> 3"
  shows "main w =
           (Some content,
            [Print Rule, Print Title, Print Rule, Print Blank,
             Print (Err_invalid_version v), Input Press_enter_to_exit]
            @ (if stdin_open w then []
               else [Print (Err_unexpected EOFError), Print (Err_details EOFError)]
                    @ epilogue w))
       \<and> writes (snd (main w)) = []
       \<and> runs (snd (main w)) = []"
  using attempt_rejected [OF assms]
  by (simp add: main_manifest main_writes main_runs halt_quiet)
     (simp add: main_def halt_def)

theorem wrong_component_count_halts_witness:
  \<open>main (sample_world (''version = '' @ [dquote] @ ''1.2'' @ [dquote]) ''apiToken = abc'' 0 0)
     = (Some (''version = '' @ [dquote] @ ''1.2'' @ [dquote]),
        [Print Rule, Print Title, Print Rule, Print Blank,
         Print (Err_invalid_version ''1.2''), Input Press_enter_to_exit])\<close>
proof -
  let ?c = \<open>''version = '' @ [dquote] @ ''1.2'' @ [dquote]\<close>
  let ?w = "sample_world ?c ''apiToken = abc'' 0 0"
  have m: "manifest ?w = Some ?c" by (simp add: sample_world_def)
  have s: "search_version ?c = Some ([], ?c, ''1.2'', [])" by code_simp
  have l: "length (split_dot ''1.2'') \<noteq> 3" by code_simp
  have o: "stdin_open ?w" by (simp add: sample_world_def)
  from wrong_component_count_halts [OF m s l] o show ?thesis by simp
qed

text \<open>
  C4, as stated, fails: a version such as \<open>1.x.3\<close> is not of the three-component numeric
  shape, yet the script neither reports a format error nor halts. It never looks at the
  first two components: it writes \<open>1.x.4\<close> and goes on to build.
\<close>

theorem unvalidated_components_counterexample:
  \<open>\<not> numeric_shape ''1.x.3''
   \<and> fst (main (sample_world (''version = '' @ [dquote] @ ''1.x.3'' @ [dquote]) ''apiToken = abc'' 0 0))
       = Some (''version = '' @ [dquote] @ ''1.x.4'' @ [dquote])
   \<and> Run Build \<in> set (snd (main (sample_world (''version = '' @ [dquote] @ ''1.x.3'' @ [dquote]) ''apiToken = abc'' 0 0)))
   \<and> Print (Err_invalid_version ''1.x.3'')
       \<notin> set (snd (main (sample_world (''version = '' @ [dquote] @ ''1.x.3'' @ [dquote]) ''apiToken = abc'' 0 0)))\<close>
  by code_simp

text \<open>
  C4, amended. The run halts before anything is written or started when the version has
  not three components, or has three and the bump raises: \<^verbatim>\<open>int\<close> refuses the third
  component (it is no integer literal, or one of more than 4300 digits), or reads it as
  the longest run of nines, whose successor \<^verbatim>\<open>str\<close> refuses to render. In the first case
  the run prints the invalid-format diagnostic; in the others the \<^verbatim>\<open>ValueError\<close> reaches
  the handler of line 148, which reports it as an unexpected error. The first two
  components are not checked.
\<close>

theorem version_error_halts:
  assumes "manifest w = Some content"
    and "search_version content = Some (before, matched, v, behind)"
    and "length (split_dot v) \<noteq> 3
         \<or> py_int (split_dot v ! 2) = None
         \<or> py_int (split_dot v ! 2) = Some (10 ^ max_str_digits - 1)"
  shows "fst (main w) = Some content
       \<and> writes (snd (main w)) = []
       \<and> runs (snd (main w)) = []
       \<and> Print (if length (split_dot v) \<noteq> 3 then Err_invalid_version v
                 else Err_unexpected ValueError) \<in> set (snd (main w))"
proof (cases "length (split_dot v) \<noteq> 3")
  case True
  from attempt_rejected [OF assms(1,2) True] True show ?thesis
    by (simp add: main_manifest main_writes main_runs halt_quiet)
       (simp add: main_def halt_def)
next
  case False
  with assms(3) have "increment_version v = Raise ValueError"
    by (intro increment_refused) simp_all
  from attempt_unparsable [OF assms(1,2) this] False show ?thesis
    by (simp add: main_manifest main_writes main_runs)
       (simp add: main_def)
qed

theorem version_error_halts_witness:
  \<open>fst (main (sample_world (''version = '' @ [dquote] @ ''1.2.x'' @ [dquote]) ''apiToken = abc'' 0 0))
     = Some (''version = '' @ [dquote] @ ''1.2.x'' @ [dquote])
   \<and> writes (snd (main (sample_world (''version = '' @ [dquote] @ ''1.2.x'' @ [dquote]) ''apiToken = abc'' 0 0))) = []
   \<and> runs (snd (main (sample_world (''version = '' @ [dquote] @ ''1.2.x'' @ [dquote]) ''apiToken = abc'' 0 0))) = []
   \<and> Print (Err_unexpected ValueError)
       \<in> set (snd (main (sample_world (''version = '' @ [dquote] @ ''1.2.x'' @ [dquote]) ''apiToken = abc'' 0 0)))\<close>
proof -
  let ?c = \<open>''version = '' @ [dquote] @ ''1.2.x'' @ [dquote]\<close>
  let ?w = "sample_world ?c ''apiToken = abc'' 0 0"
  have m: "manifest ?w = Some ?c" by (simp add: sample_world_def)
  have s: "search_version ?c = Some ([], ?c, ''1.2.x'', [])" by code_simp
  have l: "length (split_dot ''1.2.x'') = 3" by code_simp
  have p: "py_int (split_dot ''1.2.x'' ! 2) = None" by code_simp
  from p have "length (split_dot ''1.2.x'') \<noteq> 3
                \<or> py_int (split_dot ''1.2.x'' ! 2) = None
                \<or> py_int (split_dot ''1.2.x'' ! 2) = Some (10 ^ max_str_digits - 1)"
    by (intro disjI2 disjI1)
  from version_error_halts [OF m s this] l show ?thesis by simp
qed

subsection \<open>The upload is guarded\<close>

text \<open>
  C5. When the build command exits with a non-zero status, no run starts the upload
  command, whatever the token would have been.
\<close>

theorem build_failure_no_upload:
  assumes "proc w Build = Exit returncode stderr" and "returncode \<noteq> 0"
  shows "Run (Upload t) \<notin> set (snd (main w))"
  using attempt_runs [of t w] build_failed_runs [OF assms]
  by (simp add: main_runs run_in_runs)

theorem build_failure_no_upload_witness:
  \<open>Run Build \<in> set (snd (main (sample_world (''version = '' @ [dquote] @ ''1.0.0'' @ [dquote]) ''apiToken = abc'' 2 0)))
   \<and> Run (Upload ''abc'') \<notin> set (snd (main (sample_world (''version = '' @ [dquote] @ ''1.0.0'' @ [dquote]) ''apiToken = abc'' 2 0)))\<close>
proof -
  let ?w = \<open>sample_world (''version = '' @ [dquote] @ ''1.0.0'' @ [dquote]) ''apiToken = abc'' 2 0\<close>
  have p: "proc ?w Build = Exit 2 []" by (simp add: sample_world_def procs_def)
  have n: "(2::int) \<noteq> 0" by simp
  have b: "Run Build \<in> set (snd (main ?w))" by code_simp
  from build_failure_no_upload [OF p n, of "''abc''"] b show ?thesis by simp
qed

text \<open>
  C6, as stated, fails: the pattern is searched in the whole text of the secrets file, and
  its runs of blanks may include line breaks. With the key alone on one line and the
  value on the next, no single line matches, yet the search succeeds and the upload is
  started with the next line as the token.
\<close>

theorem token_on_next_line_counterexample:
  \<open>\<not> has_token_line (''apiToken ='' @ [newline] @ ''abc'')
   \<and> Run (Upload ''abc'')
       \<in> set (snd (main (sample_world (''version = '' @ [dquote] @ ''1.0.0'' @ [dquote])
                           (''apiToken ='' @ [newline] @ ''abc'') 0 0)))\<close>
  by code_simp

text \<open>
  C6, amended. When the credential pattern has no match anywhere in the text of the
  secrets file, no run starts the upload command.
\<close>

theorem no_token_no_upload:
  assumes "secrets w = Some env_content" and "search_token env_content = None"
  shows "Run (Upload t) \<notin> set (snd (main w))"
proof -
  have "Upload t \<notin> set (runs (fst (build w nv)))" for nv
    using read_token_none_runs [OF assms, of nv]
    by (simp add: build_def and_then_def runs_append halt_quiet split: proc_result.splits)
  from attempt_runs [of t w, OF this] show ?thesis
    by (simp add: main_runs run_in_runs)
qed

theorem no_token_no_upload_witness:
  \<open>Print Err_token_missing \<in> set (snd (main (sample_world (''version = '' @ [dquote] @ ''1.0.0'' @ [dquote]) ''token = abc'' 0 0)))
   \<and> Run (Upload ''abc'') \<notin> set (snd (main (sample_world (''version = '' @ [dquote] @ ''1.0.0'' @ [dquote]) ''token = abc'' 0 0)))\<close>
proof -
  let ?w = \<open>sample_world (''version = '' @ [dquote] @ ''1.0.0'' @ [dquote]) ''token = abc'' 0 0\<close>
  have p: "secrets ?w = Some ''token = abc''" by (simp add: sample_world_def)
  have n: "search_token ''token = abc'' = None" by code_simp
  have b: "Print Err_token_missing \<in> set (snd (main ?w))" by code_simp
  from no_token_no_upload [OF p n, of "''abc''"] b show ?thesis by simp
qed

subsection \<open>The rewritten manifest\<close>

lemma split_dot_nonempty: "split_dot s \<noteq> []"
  by (induction s) (auto split: list.splits)


lemma subst_all_search:
  "search_version s = Some (b, m, g, r) \<Longrightarrow> subst_all t s = b @ expand t m @ subst_all t r"
proof (induction s arbitrary: b)
  case Nil
  then show ?case by simp
next
  case (Cons c cs)
  show ?case
  proof (cases "match_version (c # cs)")
    case None
    with Cons.prems obtain b' where "search_version cs = Some (b', m, g, r)" "b = c # b'"
      by auto
    with Cons.IH None show ?thesis by simp
  next
    case (Some a)
    with Cons.prems show ?thesis by (cases a) auto
  qed
qed

lemma parse_template_plain: "bslash \<notin> set s \<Longrightarrow> parse_template s = Inr (map Lit s)"
  by (induction s rule: parse_template.induct) auto

lemma expand_lits: "expand (map Lit s) m = s"
  by (induction s) (auto simp: expand_def)

lemma re_sub_plain:
  assumes "bslash \<notin> set repl" and "search_version s = Some (b, m, g, r)"
  shows "re_sub_version repl s = Inr (b @ repl @ subst_all (map Lit repl) r)"
  using assms by (simp add: re_sub_version_def parse_template_plain subst_all_search expand_lits)

lemma split_dot_chars: "p \<in> set (split_dot s) \<Longrightarrow> x \<in> set p \<Longrightarrow> x \<in> set s"
proof (induction s arbitrary: p)
  case Nil
  then show ?case by simp
next
  case (Cons c cs)
  obtain q qs where q: "split_dot cs = q # qs"
    by (cases "split_dot cs") (auto dest: arg_cong [where f = length] simp: split_dot_nonempty)
  show ?case
  proof (cases "c = CHR ''.''")
    case True
    with Cons show ?thesis by auto
  next
    case False
    with Cons.prems q have "p = c # q \<or> p \<in> set qs" by simp
    then show ?thesis
    proof
      assume "p = c # q"
      with Cons.prems(2) have "x = c \<or> x \<in> set q" by simp
      with Cons.IH [of q] q show ?thesis by auto
    next
      assume "p \<in> set qs"
      with Cons.IH [of p] Cons.prems(2) q show ?thesis by simp
    qed
  qed
qed

lemma nat_digits_chars: "c \<in> set (nat_digits n) \<Longrightarrow> is_digit c"
proof (induction n rule: nat_digits.induct)
  case (1 n)
  then show ?case
    by (subst (asm) (2) nat_digits.simps) (auto simp: is_digit_def digit_char_def split: if_splits)
qed

lemma py_str_plain: "py_str i = Some s \<Longrightarrow> bslash \<notin> set s"
  using nat_digits_chars [of bslash]
  by (auto simp: py_str_def Let_def is_digit_def split: if_splits)

lemma increment_plain:
  assumes "increment_version v = Done nv" and "bslash \<notin> set v"
  shows "bslash \<notin> set nv"
proof -
  from assms(1) obtain p s where l: "length (split_dot v) = 3"
    and s: "py_str (p + 1) = Some s"
    and nv: "nv = split_dot v ! 0 @ ''.'' @ split_dot v ! 1 @ ''.'' @ s"
    by (auto simp: increment_version_def Let_def split: if_splits option.splits)
  from l have "split_dot v ! 0 \<in> set (split_dot v)" "split_dot v ! 1 \<in> set (split_dot v)"
    by simp_all
  with assms(2) have "bslash \<notin> set (split_dot v ! 0)" "bslash \<notin> set (split_dot v ! 1)"
    using split_dot_chars [of _ v bslash] by blast+
  then show ?thesis using py_str_plain [OF s] by (simp add: nv)
qed

lemma attempt_written:
  assumes "manifest w = Some content"
    and "search_version content = Some (before, matched, v, behind)"
    and "increment_version v = Done nv"
    and "re_sub_version (replacement nv) content = Inr new_content"
  shows "fst (attempt w) = Some new_content"
    and "writes (fst (snd (attempt w))) = [new_content]"
  using assms
  by (simp_all add: attempt_def and_then_def writes_append after_write_writes)

text \<open>
  C9. Once the new manifest text has been written, it stays: whatever the later steps do
  (a failing clean-up, build or upload, a missing secrets file or token), the manifest
  the run leaves behind is the text of the persist step, and that is the only write of
  the run. No path writes the old version back.
\<close>

theorem bump_never_rolled_back:
  assumes "manifest w = Some content"
    and "search_version content = Some (before, matched, v, behind)"
    and "increment_version v = Done nv"
    and "re_sub_version (replacement nv) content = Inr new_content"
  shows "fst (main w) = Some new_content \<and> writes (snd (main w)) = [new_content]"
  using attempt_written [OF assms] by (simp add: main_manifest main_writes)

theorem bump_never_rolled_back_witness:
  \<open>fst (main (sample_world (''version = '' @ [dquote] @ ''1.0.0'' @ [dquote]) ''apiToken = abc'' 0 1))
     = Some (''version = '' @ [dquote] @ ''1.0.1'' @ [dquote])
   \<and> writes (snd (main (sample_world (''version = '' @ [dquote] @ ''1.0.0'' @ [dquote]) ''apiToken = abc'' 0 1)))
     = [''version = '' @ [dquote] @ ''1.0.1'' @ [dquote]]
   \<and> Print (Err_upload_failed [])
       \<in> set (snd (main (sample_world (''version = '' @ [dquote] @ ''1.0.0'' @ [dquote]) ''apiToken = abc'' 0 1)))\<close>
proof -
  let ?c = \<open>''version = '' @ [dquote] @ ''1.0.0'' @ [dquote]\<close>
  let ?n = \<open>''version = '' @ [dquote] @ ''1.0.1'' @ [dquote]\<close>
  let ?w = "sample_world ?c ''apiToken = abc'' 0 1"
  have m: "manifest ?w = Some ?c" by (simp add: sample_world_def)
  have s: "search_version ?c = Some ([], ?c, ''1.0.0'', [])" by code_simp
  have i: "increment_version ''1.0.0'' = Done ''1.0.1''" by code_simp
  have r: "re_sub_version (replacement ''1.0.1'') ?c = Inr ?n" by code_simp
  have u: "Print (Err_upload_failed []) \<in> set (snd (main ?w))" by code_simp
  from bump_never_rolled_back [OF m s i r] u show ?thesis by simp
qed

text \<open>
  C2 does not hold of the script: \<^verbatim>\<open>re.sub\<close> is called without a count, so every span
  the pattern matches is replaced, not only the first one, which is the only one the
  extraction of line 49 reads. A later key ending in \<open>version\<close> loses its value.
\<close>

theorem every_assignment_rewritten:
  \<open>fst (main (sample_world
      (''version = '' @ [dquote] @ ''1.0.0'' @ [dquote, newline]
       @ ''python_version = '' @ [dquote] @ ''3.8'' @ [dquote, newline])
      ''apiToken = abc'' 0 0))
   = Some (''version = '' @ [dquote] @ ''1.0.1'' @ [dquote, newline]
           @ ''python_version = '' @ [dquote] @ ''1.0.1'' @ [dquote, newline])\<close>
  by code_simp


text \<open>
  When the extracted version holds no backslash and the bump succeeds, the span of the
  first match, whatever quotes and blanks it had, is replaced by \<^verbatim>\<open>version = "X.Y.Z"\<close>
  with the new version, after the unchanged text before it. The text behind it is
  rewritten by the same substitution.
\<close>

lemma rewrite_canonical:
  assumes "manifest w = Some content"
    and "search_version content = Some (before, matched, v, behind)"
    and "increment_version v = Done nv"
    and "bslash \<notin> set v"
  shows "fst (main w) =
           Some (before @ ''version = '' @ [dquote] @ nv @ [dquote]
                 @ subst_all (map Lit (replacement nv)) behind)"
proof -
  from increment_plain [OF assms(3,4)] have "bslash \<notin> set (replacement nv)"
    by (simp add: replacement_def)
  from re_sub_plain [OF this assms(2)]
  have "re_sub_version (replacement nv) content
        = Inr (before @ replacement nv @ subst_all (map Lit (replacement nv)) behind)" .
  from attempt_written(1) [OF assms(1-3) this] show ?thesis
    by (simp add: main_manifest replacement_def)
qed

lemma rewrite_canonical_sample:
  \<open>fst (main (sample_world (''name = x'' @ [newline] @ ''version='' @ [squote] @ ''1.2.3'' @ [dquote, newline]) ''apiToken = abc'' 0 0))
     = Some (''name = x'' @ [newline] @ ''version = '' @ [dquote] @ ''1.2.4'' @ [dquote, newline])\<close>
proof -
  let ?c = \<open>''name = x'' @ [newline] @ ''version='' @ [squote] @ ''1.2.3'' @ [dquote, newline]\<close>
  let ?w = "sample_world ?c ''apiToken = abc'' 0 0"
  have m: "manifest ?w = Some ?c" by (simp add: sample_world_def)
  have s: "search_version ?c
           = Some (''name = x'' @ [newline], ''version='' @ [squote] @ ''1.2.3'' @ [dquote],
                   ''1.2.3'', [newline])"
    by code_simp
  have i: "increment_version ''1.2.3'' = Done ''1.2.4''" by code_simp
  have b: "bslash \<notin> set ''1.2.3''" by simp
  have t: "subst_all (map Lit (replacement ''1.2.4'')) [newline] = [newline]" by code_simp
  from rewrite_canonical [OF m s i b] t show ?thesis by simp
qed

end
